theory Spec2Isabelle
  imports Main
begin

section \<open>slivka: job status, retry pacing and command rendering\<close>

text \<open>
  JobStatus and BackoffCounter are translated from \<^verbatim>\<open>slivka/utils.py\<close>. CommandOption,
  Executor and Job live in \<^verbatim>\<open>pybioas.scheduler\<close>, which is not among the sources at hand (only
  their tests are), so they are modelled from the specification.
\<close>

subsection \<open>Python errors\<close>

datatype py_error = ValueError | StopIteration

subsection \<open>JobStatus\<close>

text \<open>
  \<^verbatim>\<open>class JobStatus(enum.IntEnum)\<close>: eleven members with the integer values 1 to 11.
\<close>

datatype JobStatus =
  PENDING | REJECTED | ACCEPTED | QUEUED | RUNNING | COMPLETED
  | INTERRUPTED | DELETED | FAILED | ERROR | UNKNOWN

fun status_value :: "JobStatus \<Rightarrow> int" where
  "status_value PENDING = 1"
| "status_value REJECTED = 2"
| "status_value ACCEPTED = 3"
| "status_value QUEUED = 4"
| "status_value RUNNING = 5"
| "status_value COMPLETED = 6"
| "status_value INTERRUPTED = 7"
| "status_value DELETED = 8"
| "status_value FAILED = 9"
| "status_value ERROR = 10"
| "status_value UNKNOWN = 11"

text \<open>
  \<^verbatim>\<open>return self not in (PENDING, ACCEPTED, QUEUED, RUNNING)\<close>: membership in a tuple
  compares with \<^verbatim>\<open>==\<close>, which on an IntEnum compares the integer values.
\<close>

definition is_finished :: "JobStatus \<Rightarrow> bool" where
  "is_finished s =
     (\<not> List.member (map status_value [PENDING, ACCEPTED, QUEUED, RUNNING]) (status_value s))"

subsection \<open>BackoffCounter\<close>

text \<open>
  The field \<^verbatim>\<open>_counter\<close> holds one of two iterators: the class attribute
  \<^verbatim>\<open>_zero_gen = itertools.repeat(0)\<close>, which yields 0 forever and has no state that a
  call could change (so sharing it among instances is not observable), or a
  \<^verbatim>\<open>reversed(range(n))\<close>. \<open>ReversedRange k\<close> is such an iterator with \<open>k\<close> items left:
  it yields \<open>k - 1\<close>, ..., \<open>0\<close> and then raises StopIteration.
\<close>

datatype delay_iter = ZeroGen | ReversedRange nat

text \<open>\<^verbatim>\<open>next(it)\<close>; \<open>None\<close> is StopIteration.\<close>

definition iter_next :: "delay_iter \<Rightarrow> (int \<times> delay_iter) option" where
  "iter_next it =
     (case it of
        ZeroGen \<Rightarrow> Some (0, ZeroGen)
      | ReversedRange k \<Rightarrow>
          if k = 0 then None else Some (int k - 1, ReversedRange (k - 1)))"

text \<open>\<^verbatim>\<open>reversed(range(n))\<close>: empty when \<open>n \<le> 0\<close>.\<close>

definition reversed_range :: "int \<Rightarrow> delay_iter" where
  "reversed_range n = ReversedRange (nat n)"

record BackoffCounter =
  counter :: delay_iter
  tries :: int
  max_tries :: int
  current :: int

text \<open>\<^verbatim>\<open>__init__(self, max_tries=64)\<close>\<close>

definition BackoffCounter_init :: "int \<Rightarrow> BackoffCounter" where
  "BackoffCounter_init m = \<lparr>counter = ZeroGen, tries = 0, max_tries = m, current = 0\<rparr>"

text \<open>\<^verbatim>\<open>reset(self)\<close>\<close>

definition reset :: "BackoffCounter \<Rightarrow> BackoffCounter" where
  "reset c = c\<lparr>counter := ZeroGen, tries := 0, current := 0\<rparr>"

text \<open>
  \<^verbatim>\<open>__next__(self)\<close> (and \<^verbatim>\<open>next(self)\<close>, which only calls it). The result pairs what
  the call returns or raises with the object as the call leaves it. The second
  \<^verbatim>\<open>next(self._counter)\<close> stands outside the \<^verbatim>\<open>try\<close>, so a StopIteration there would
  propagate.
\<close>

definition BackoffCounter_next :: "BackoffCounter \<Rightarrow> (py_error + int) \<times> BackoffCounter" where
  "BackoffCounter_next c =
     (case iter_next (counter c) of
        Some (v, it) \<Rightarrow> (Inr v, c\<lparr>counter := it, current := v\<rparr>)
      | None \<Rightarrow>
          (let c1 = reset c in
           case iter_next (counter c1) of
             Some (v, it) \<Rightarrow> (Inr v, c1\<lparr>counter := it, current := v\<rparr>)
           | None \<Rightarrow> (Inl StopIteration, c1)))"

text \<open>\<^verbatim>\<open>give_up\<close> (property): \<^verbatim>\<open>self._tries >= self.max_tries\<close>\<close>

definition give_up :: "BackoffCounter \<Rightarrow> bool" where
  "give_up c = (max_tries c \<le> tries c)"

text \<open>
  \<^verbatim>\<open>failure(self)\<close>. The three assignments run in order; \<^verbatim>\<open>1 << n\<close> raises ValueError
  for a negative \<open>n\<close>, after \<^verbatim>\<open>_tries\<close> has been assigned.
\<close>

definition failure :: "BackoffCounter \<Rightarrow> (py_error + unit) \<times> BackoffCounter" where
  "failure c =
     (let c1 = c\<lparr>tries := min (max_tries c) (tries c + 1)\<rparr> in
      if tries c1 < 0 then (Inl ValueError, c1)
      else
        let c2 = c1\<lparr>current := 2 ^ nat (tries c1)\<rparr> in
        (Inr (), c2\<lparr>counter := reversed_range (current c2)\<rparr>))"

subsection \<open>Sequences of calls\<close>

text \<open>\<open>n\<close> consecutive \<^verbatim>\<open>failure()\<close> calls; an exception ends the sequence.\<close>

fun failures :: "nat \<Rightarrow> BackoffCounter \<Rightarrow> py_error + BackoffCounter" where
  "failures 0 c = Inr c"
| "failures (Suc n) c =
     (case failure c of
        (Inl e, c1) \<Rightarrow> Inl e
      | (Inr u, c1) \<Rightarrow> failures n c1)"

text \<open>\<open>n\<close> consecutive \<^verbatim>\<open>next()\<close> calls: what each returned, and the final object.\<close>

fun nexts :: "nat \<Rightarrow> BackoffCounter \<Rightarrow> (py_error + int) list \<times> BackoffCounter" where
  "nexts 0 c = ([], c)"
| "nexts (Suc n) c =
     (case BackoffCounter_next c of
        (r, c1) \<Rightarrow> (case nexts n c1 of (rs, c2) \<Rightarrow> (r # rs, c2)))"

text \<open>
  An arbitrary history of calls on one object. The object keeps what a call assigned
  before it raised, so the history goes on from there when the caller catches the
  exception.
\<close>

datatype call = Failure | Next | Reset

fun do_call :: "call \<Rightarrow> BackoffCounter \<Rightarrow> BackoffCounter" where
  "do_call Failure c = snd (failure c)"
| "do_call Next c = snd (BackoffCounter_next c)"
| "do_call Reset c = reset c"

fun run :: "call list \<Rightarrow> BackoffCounter \<Rightarrow> BackoffCounter" where
  "run [] c = c"
| "run (x # xs) c = run xs (do_call x c)"

text \<open>
  The delay that the \<open>i\<close>-th \<^verbatim>\<open>next()\<close> call (counting from 0) returns when the countdown
  has \<open>k\<close> items left: \<open>k - 1\<close>, \<open>k - 2\<close>, ..., \<open>0\<close>, and 0 from then on.
\<close>

definition countdown_delay :: "nat \<Rightarrow> nat \<Rightarrow> int" where
  "countdown_delay k i = (if i < k then int k - 1 - int i else 0)"

subsection \<open>CommandOption\<close>

text \<open>
  Modelled from the spec: the class CommandOption of \<^verbatim>\<open>pybioas.scheduler.command\<close> is
  missing from the sources. The spec gives it a \<open>name\<close>, a \<open>template\<close> (a string with one
  substitution placeholder) and \<open>default\<close> (emit the literal template when the value is
  absent).
\<close>

record CommandOption =
  name :: string
  template :: string
  default :: bool

text \<open>
  Modelled from the spec: the rendered text of an option, missing from the sources. The
  spec has the value substituted "as a single unit (no whitespace re-splitting of the
  substituted value)", so the rendered text is a sequence of pieces: a character of the
  option's own literal text, or the string form of the value, kept whole.
\<close>

datatype piece = Lit char | Val string

text \<open>
  Modelled from the spec: substitution of the placeholder, which the spec writes
  \<^verbatim>\<open>${value}\<close> (eight characters), by the string form \<open>v\<close> of the value. The template is
  read from the left; every other character is literal text.
\<close>

fun substitute :: "string \<Rightarrow> string \<Rightarrow> piece list" where
  "substitute [] v = []"
| "substitute (c # cs) v =
     (if take 8 (c # cs) = ''${value}'' then Val v # substitute (drop 7 cs) v
      else Lit c # substitute cs v)"

text \<open>
  Modelled from the spec: the whitespace that separates tokens (the spec says
  "whitespace-tokenize" and names no characters): space, tab, line feed, vertical tab,
  form feed, carriage return.
\<close>

definition is_space :: "char \<Rightarrow> bool" where
  "is_space c = List.member [CHR '' '', CHR 0x09, CHR 0x0A, CHR 0x0B, CHR 0x0C, CHR 0x0D] c"

fun piece_text :: "piece \<Rightarrow> string" where
  "piece_text (Lit c) = [c]"
| "piece_text (Val v) = v"

text \<open>Modelled from the spec: the rendered string, which the spec tests for emptiness.\<close>

definition rendered_text :: "piece list \<Rightarrow> string" where
  "rendered_text ps = concat (map piece_text ps)"

fun open_token :: "string option \<Rightarrow> string" where
  "open_token None = []"
| "open_token (Some t) = t"

text \<open>
  Modelled from the spec: whitespace tokenization of "only the option's own literal
  surrounding text". \<open>cur\<close> is the token being read, if any. A whitespace character of the
  literal text ends it; any other literal character and the whole value extend it.
\<close>

fun tokenize_from :: "string option \<Rightarrow> piece list \<Rightarrow> string list" where
  "tokenize_from cur [] = (case cur of None \<Rightarrow> [] | Some t \<Rightarrow> [t])"
| "tokenize_from cur (Lit c # ps) =
     (if is_space c
      then (case cur of None \<Rightarrow> tokenize_from None ps | Some t \<Rightarrow> t # tokenize_from None ps)
      else tokenize_from (Some (open_token cur @ [c])) ps)"
| "tokenize_from cur (Val v # ps) = tokenize_from (Some (open_token cur @ v)) ps"

definition tokenize :: "piece list \<Rightarrow> string list" where
  "tokenize ps = tokenize_from None ps"

text \<open>
  Modelled from the spec: rendering one option (section 4.1), missing from the sources.
  \<open>None\<close> is an absent value. Absent and \<open>default = False\<close>: no token. Absent and
  \<open>default = True\<close>: the literal template, tokenized by whitespace. Present: the
  placeholder substituted, then tokenized; an empty rendered string gives no token.
\<close>

definition render_option :: "CommandOption \<Rightarrow> string option \<Rightarrow> string list" where
  "render_option opt val =
     (case val of
        None \<Rightarrow> if default opt then tokenize (map Lit (template opt)) else []
      | Some v \<Rightarrow>
          (let ps = substitute (template opt) v
           in if rendered_text ps = [] then [] else tokenize ps))"

subsection \<open>Executor.get_options\<close>

text \<open>
  Modelled from the spec: \<^verbatim>\<open>Executor.get_options(values)\<close> of
  \<^verbatim>\<open>pybioas.scheduler.executors\<close>, missing from the sources: it "iterates CommandOptions in
  declaration order, looks up each by name in values (missing means absent), concatenates
  rendered tokens in order". \<open>values\<close> is a dictionary, here the list of its items in
  iteration order, each value in its string form; \<open>map_of\<close> is the lookup by key.
\<close>

fun get_options_from ::
  "CommandOption list \<Rightarrow> (string \<times> string) list \<Rightarrow> string list \<Rightarrow> string list" where
  "get_options_from [] vs acc = acc"
| "get_options_from (opt # opts) vs acc =
     get_options_from opts vs (acc @ render_option opt (map_of vs (name opt)))"

definition get_options :: "CommandOption list \<Rightarrow> (string \<times> string) list \<Rightarrow> string list" where
  "get_options opts vs = get_options_from opts vs []"

subsection \<open>Job.file_results\<close>

text \<open>
  Modelled from the spec: the class Job of \<^verbatim>\<open>pybioas.scheduler.executors\<close>, missing from
  the sources: a job id (an opaque handle), the working directory and the list of
  FileResult descriptors.
\<close>

record ('id, 'fr) Job =
  job_id :: 'id
  cwd :: string
  file_result_descriptors :: "'fr list"

text \<open>
  Modelled from the spec: \<^verbatim>\<open>Job.file_results\<close>, missing from the sources: "flatten
  \<^verbatim>\<open>FileResult.get_paths(cwd)\<close> across all descriptors, preserving descriptor order then
  intra-descriptor order". \<^verbatim>\<open>FileResult.get_paths\<close> reads the file system and is missing
  too; it is the parameter \<open>get_paths\<close>.
\<close>

fun file_results_from ::
  "('fr \<Rightarrow> string \<Rightarrow> string list) \<Rightarrow> string \<Rightarrow> 'fr list \<Rightarrow> string list \<Rightarrow> string list" where
  "file_results_from get_paths d [] acc = acc"
| "file_results_from get_paths d (f # fs) acc =
     file_results_from get_paths d fs (acc @ get_paths f d)"

definition file_results ::
  "('fr \<Rightarrow> string \<Rightarrow> string list) \<Rightarrow> ('id, 'fr) Job \<Rightarrow> string list" where
  "file_results get_paths job =
     file_results_from get_paths (cwd job) (file_result_descriptors job) []"

text \<open>An absolute path starts with a slash.\<close>

fun is_absolute :: "string \<Rightarrow> bool" where
  "is_absolute [] = False"
| "is_absolute (c # cs) = (c = CHR ''/'')"

section \<open>Properties\<close>

subsection \<open>JobStatus\<close>

text \<open>
  C3: for every JobStatus value \<open>s\<close>, \<open>is_finished s\<close> is true if and only if \<open>s\<close> is one of
  REJECTED, COMPLETED, INTERRUPTED, DELETED, FAILED, ERROR, UNKNOWN, and false exactly for
  PENDING, ACCEPTED, QUEUED, RUNNING; the enumeration has these eleven states and no other.
\<close>

theorem is_finished_iff:
  "(is_finished s =
      (s = REJECTED \<or> s = COMPLETED \<or> s = INTERRUPTED \<or> s = DELETED \<or> s = FAILED
        \<or> s = ERROR \<or> s = UNKNOWN))
   \<and> ((\<not> is_finished s) = (s = PENDING \<or> s = ACCEPTED \<or> s = QUEUED \<or> s = RUNNING))
   \<and> (UNIV :: JobStatus set) =
       {PENDING, REJECTED, ACCEPTED, QUEUED, RUNNING, COMPLETED, INTERRUPTED, DELETED,
        FAILED, ERROR, UNKNOWN}
   \<and> card (UNIV :: JobStatus set) = 11"
proof -
  have u: "(UNIV :: JobStatus set) =
       {PENDING, REJECTED, ACCEPTED, QUEUED, RUNNING, COMPLETED, INTERRUPTED, DELETED,
        FAILED, ERROR, UNKNOWN}"
  proof
    show "(UNIV :: JobStatus set) \<subseteq>
       {PENDING, REJECTED, ACCEPTED, QUEUED, RUNNING, COMPLETED, INTERRUPTED, DELETED,
        FAILED, ERROR, UNKNOWN}"
    proof
      fix x :: JobStatus
      show "x \<in> {PENDING, REJECTED, ACCEPTED, QUEUED, RUNNING, COMPLETED, INTERRUPTED,
        DELETED, FAILED, ERROR, UNKNOWN}"
        by (cases x) simp_all
    qed
  qed simp
  have c: "card (UNIV :: JobStatus set) = 11"
    unfolding u by simp
  have f: "is_finished s =
      (s = REJECTED \<or> s = COMPLETED \<or> s = INTERRUPTED \<or> s = DELETED \<or> s = FAILED
        \<or> s = ERROR \<or> s = UNKNOWN)"
    by (cases s) (simp_all add: is_finished_def)
  have g: "(\<not> is_finished s) = (s = PENDING \<or> s = ACCEPTED \<or> s = QUEUED \<or> s = RUNNING)"
    by (cases s) (simp_all add: is_finished_def)
  from f g u c show ?thesis by blast
qed

subsection \<open>BackoffCounter: single calls\<close>

text \<open>
  With a non-negative bound and a non-negative try count, \<^verbatim>\<open>failure()\<close> does not raise: the
  try count goes up by one, capped at the bound, and \<open>current\<close> and the countdown follow it.
\<close>

lemma failure_nonneg:
  assumes "0 \<le> max_tries c" and "0 \<le> tries c"
  shows "failure c =
    (Inr (), c\<lparr>counter := ReversedRange (2 ^ nat (min (max_tries c) (tries c + 1))),
              tries := min (max_tries c) (tries c + 1),
              current := 2 ^ nat (min (max_tries c) (tries c + 1))\<rparr>)"
  using assms by (simp add: failure_def reversed_range_def Let_def nat_power_eq)

lemma failures_nonneg:
  assumes "0 \<le> max_tries c" and "0 \<le> tries c" and "0 < n"
  shows "failures n c =
    Inr (c\<lparr>counter := ReversedRange (2 ^ nat (min (max_tries c) (tries c + int n))),
           tries := min (max_tries c) (tries c + int n),
           current := 2 ^ nat (min (max_tries c) (tries c + int n))\<rparr>)"
  using assms
proof (induction n arbitrary: c)
  case 0
  then show ?case by simp
next
  case (Suc n)
  let ?c1 = "snd (failure c)"
  have f: "failure c = (Inr (), ?c1)"
    using Suc.prems by (simp add: failure_nonneg)
  have m1: "max_tries ?c1 = max_tries c" and t1: "tries ?c1 = min (max_tries c) (tries c + 1)"
    using Suc.prems by (simp_all add: failure_nonneg)
  show ?case
  proof (cases "n = 0")
    case True
    then show ?thesis using Suc.prems by (simp add: failure_nonneg)
  next
    case False
    have "0 \<le> max_tries ?c1" "0 \<le> tries ?c1" "0 < n"
      using Suc.prems False m1 t1 by simp_all
    from Suc.IH [OF this]
    have "failures n ?c1 =
      Inr (?c1\<lparr>counter := ReversedRange (2 ^ nat (min (max_tries ?c1) (tries ?c1 + int n))),
           tries := min (max_tries ?c1) (tries ?c1 + int n),
           current := 2 ^ nat (min (max_tries ?c1) (tries ?c1 + int n))\<rparr>)" .
    moreover have "min (max_tries ?c1) (tries ?c1 + int n) = min (max_tries c) (tries c + int (Suc n))"
      unfolding m1 t1 by simp
    ultimately show ?thesis
      using f Suc.prems by (simp add: failure_nonneg)
  qed
qed

lemma next_ZeroGen:
  "counter c = ZeroGen \<Longrightarrow> BackoffCounter_next c = (Inr 0, c\<lparr>current := 0\<rparr>)"
  by (simp add: BackoffCounter_next_def iter_next_def)

lemma next_ReversedRange_Suc:
  "counter c = ReversedRange (Suc k) \<Longrightarrow>
   BackoffCounter_next c = (Inr (int k), c\<lparr>counter := ReversedRange k, current := int k\<rparr>)"
  by (simp add: BackoffCounter_next_def iter_next_def)

text \<open>On an exhausted countdown \<^verbatim>\<open>next()\<close> resets the object, try count included.\<close>

lemma next_ReversedRange_0:
  "counter c = ReversedRange 0 \<Longrightarrow> BackoffCounter_next c = (Inr 0, reset c)"
  by (simp add: BackoffCounter_next_def iter_next_def reset_def)

subsection \<open>BackoffCounter: sequences of calls\<close>

lemma fst_nexts_Suc:
  "fst (nexts (Suc n) c) =
     fst (BackoffCounter_next c) # fst (nexts n (snd (BackoffCounter_next c)))"
  by (simp split: prod.splits)

lemma snd_nexts_Suc:
  "snd (nexts (Suc n) c) = snd (nexts n (snd (BackoffCounter_next c)))"
  by (simp split: prod.splits)

lemma nexts_ZeroGen:
  "counter c = ZeroGen \<Longrightarrow>
   nexts n c = (replicate n (Inr 0), if n = 0 then c else c\<lparr>current := 0\<rparr>)"
proof (induction n arbitrary: c)
  case 0
  then show ?case by simp
next
  case (Suc n)
  have "counter (c\<lparr>current := 0\<rparr>) = ZeroGen" using Suc.prems by simp
  from Suc.IH [OF this] show ?case
    using Suc.prems by (simp add: next_ZeroGen)
qed

lemma countdown_delay_Suc: "countdown_delay (Suc k) (Suc i) = countdown_delay k i"
  by (simp add: countdown_delay_def)

lemma map_upt_shift: "map f [0..<Suc n] = f 0 # map (\<lambda>i. f (Suc i)) [0..<n]"
  by (simp only: upt_conv_Cons [OF zero_less_Suc] list.map map_Suc_upt [symmetric] map_map comp_def)

lemma nexts_ReversedRange_values:
  "counter c = ReversedRange k \<Longrightarrow>
   fst (nexts n c) = map (\<lambda>i. Inr (countdown_delay k i)) [0..<n]"
proof (induction n arbitrary: c k)
  case 0
  then show ?case by simp
next
  case (Suc n)
  show ?case
  proof (cases k)
    case 0
    have z: "counter (reset c) = ZeroGen" by (simp add: reset_def)
    have "fst (nexts (Suc n) c) = Inr 0 # fst (nexts n (reset c))"
      using Suc.prems 0 by (simp only: fst_nexts_Suc next_ReversedRange_0 fst_conv snd_conv)
    then have "fst (nexts (Suc n) c) = Inr 0 # replicate n (Inr 0)"
      by (simp add: nexts_ZeroGen [OF z])
    moreover have "map (\<lambda>i. Inr (countdown_delay 0 i) :: py_error + int) [0..<Suc n] = replicate (Suc n) (Inr 0)"
      by (simp add: countdown_delay_def map_replicate_const del: upt_Suc replicate_Suc)
    ultimately show ?thesis using 0 by simp
  next
    case (Suc j)
    let ?c1 = "c\<lparr>counter := ReversedRange j, current := int j\<rparr>"
    have "counter ?c1 = ReversedRange j" by simp
    from Suc.IH [OF this]
    have ih: "fst (nexts n ?c1) = map (\<lambda>i. Inr (countdown_delay j i)) [0..<n]" .
    have "fst (nexts (Suc n) c) = Inr (int j) # fst (nexts n ?c1)"
      using Suc.prems Suc by (simp add: next_ReversedRange_Suc split: prod.splits)
    also have "\<dots> = map (\<lambda>i. Inr (countdown_delay k i)) [0..<Suc n]"
      unfolding ih map_upt_shift [of _ n] Suc countdown_delay_Suc
      by (simp add: countdown_delay_def)
    finally show ?thesis .
  qed
qed

lemma nexts_ReversedRange_state:
  "counter c = ReversedRange k \<Longrightarrow>
   snd (nexts n c) =
     (if n = 0 then c
      else if n \<le> k then c\<lparr>counter := ReversedRange (k - n), current := int (k - n)\<rparr>
      else reset c)"
proof (induction n arbitrary: c k)
  case 0
  then show ?case by simp
next
  case (Suc n)
  show ?case
  proof (cases k)
    case 0
    have z: "counter (reset c) = ZeroGen" by (simp add: reset_def)
    have "snd (nexts (Suc n) c) = snd (nexts n (reset c))"
      using Suc.prems 0 by (simp only: snd_nexts_Suc next_ReversedRange_0 snd_conv)
    also have "\<dots> = reset c"
      by (simp add: nexts_ZeroGen [OF z]) (simp add: reset_def)
    finally show ?thesis using 0 by simp
  next
    case (Suc j)
    let ?c1 = "c\<lparr>counter := ReversedRange j, current := int j\<rparr>"
    have "counter ?c1 = ReversedRange j" by simp
    from Suc.IH [OF this]
    have ih: "snd (nexts n ?c1) =
     (if n = 0 then ?c1
      else if n \<le> j then ?c1\<lparr>counter := ReversedRange (j - n), current := int (j - n)\<rparr>
      else reset ?c1)" .
    have "snd (nexts (Suc n) c) = snd (nexts n ?c1)"
      using Suc.prems Suc by (simp add: next_ReversedRange_Suc split: prod.splits)
    then show ?thesis
      unfolding ih using Suc by (simp add: reset_def)
  qed
qed

lemma max_tries_do_call: "max_tries (do_call x c) = max_tries c"
  by (cases x)
    (simp_all add: failure_def BackoffCounter_next_def reset_def Let_def
      split: option.splits prod.splits)

lemma max_tries_run: "max_tries (run h c) = max_tries c"
  by (induction h arbitrary: c) (simp_all add: max_tries_do_call)

lemma reset_eq_init: "reset c = BackoffCounter_init (max_tries c)"
  by (cases c) (simp add: reset_def BackoffCounter_init_def)

subsection \<open>BackoffCounter: the claims\<close>

text \<open>
  C1: for every BackoffCounter and every \<open>N\<close> with \<open>N \<le> max_tries\<close>, after \<open>N\<close> consecutive
  \<^verbatim>\<open>failure()\<close> calls (\<open>N \<ge> 1\<close>: the state after the \<open>N\<close>-th failure) the calls have
  returned normally and \<open>current = 2 ^ N\<close>; the subsequent \<^verbatim>\<open>next()\<close> calls return
  \<open>2 ^ N - 1\<close>, \<open>2 ^ N - 2\<close>, ..., \<open>0\<close>, and then 0 on every further call. The list of what
  the first \<open>n\<close> calls return is given for every \<open>n\<close>. The failures are counted from a
  try count of 0 (a freshly constructed or reset counter); when \<open>N = max_tries\<close> the try
  count saturates at \<open>N\<close>, so the same holds from any earlier non-negative try count.
\<close>

theorem failures_then_countdown:
  assumes "1 \<le> N" and "int N \<le> max_tries c"
    and "tries c = 0 \<or> (0 \<le> tries c \<and> int N = max_tries c)"
  shows "\<exists>c'. failures N c = Inr c' \<and> tries c' = int N \<and> current c' = 2 ^ N
     \<and> (\<forall>n. fst (nexts n c') =
           map (\<lambda>i. Inr (if i < 2 ^ N then 2 ^ N - 1 - int i else 0)) [0..<n])"
proof -
  let ?c' = "c\<lparr>counter := ReversedRange (2 ^ N), tries := int N, current := 2 ^ N\<rparr>"
  have t: "0 \<le> tries c"
    using assms(3) by auto
  have m: "min (max_tries c) (tries c + int N) = int N"
    using assms t by auto
  have "0 \<le> max_tries c" "0 \<le> tries c" "0 < N"
    using assms t by simp_all
  from failures_nonneg [OF this] have f: "failures N c = Inr ?c'"
    unfolding m by simp
  have "counter ?c' = ReversedRange (2 ^ N)" by simp
  from nexts_ReversedRange_values [OF this]
  have "fst (nexts n ?c') =
      map (\<lambda>i. Inr (if i < 2 ^ N then 2 ^ N - 1 - int i else 0)) [0..<n]" for n
    by (simp add: countdown_delay_def)
  with f show ?thesis by simp
qed

theorem failures_then_countdown_witness:
  "(1::nat) \<le> 2 \<and> int 2 \<le> max_tries (BackoffCounter_init 3)
   \<and> tries (BackoffCounter_init 3) = 0
   \<and> (\<exists>c'. failures 2 (BackoffCounter_init 3) = Inr c' \<and> tries c' = int 2 \<and> current c' = 2 ^ 2
     \<and> (\<forall>n. fst (nexts n c') =
           map (\<lambda>i. Inr (if i < 2 ^ 2 then 2 ^ 2 - 1 - int i else 0)) [0..<n]))
   \<and> 0 \<le> tries \<lparr>counter = ReversedRange 2, tries = 1, max_tries = 2, current = 2\<rparr>
   \<and> int 2 = max_tries \<lparr>counter = ReversedRange 2, tries = 1, max_tries = 2, current = 2\<rparr>
   \<and> (\<exists>c'. failures 2 \<lparr>counter = ReversedRange 2, tries = 1, max_tries = 2, current = 2\<rparr>
           = Inr c' \<and> tries c' = int 2 \<and> current c' = 2 ^ 2
     \<and> (\<forall>n. fst (nexts n c') =
           map (\<lambda>i. Inr (if i < 2 ^ 2 then 2 ^ 2 - 1 - int i else 0)) [0..<n]))"
  using failures_then_countdown [of 2 "BackoffCounter_init 3"]
    failures_then_countdown
      [of 2 "\<lparr>counter = ReversedRange 2, tries = 1, max_tries = 2, current = 2\<rparr>"]
  by (simp add: BackoffCounter_init_def)

text \<open>
  C2, as amended: for every BackoffCounter whose try count has saturated (\<open>give_up\<close> is
  true), \<open>give_up\<close> stays true and the try count stays as it is across the subsequent
  \<^verbatim>\<open>next()\<close> calls that the countdown still serves: any number of them on the zero sequence,
  and as many as the countdown has items left (\<open>k\<close>; \<open>2 ^ max_tries\<close> right after the
  saturating \<^verbatim>\<open>failure()\<close>). The first \<^verbatim>\<open>next()\<close> call that finds the countdown exhausted
  calls \<^verbatim>\<open>reset()\<close>: from then on the try count is 0, and \<open>give_up\<close> is true only if
  \<open>max_tries \<le> 0\<close>.
\<close>

theorem give_up_during_countdown:
  assumes "give_up c"
  shows "(counter c = ZeroGen \<longrightarrow>
            tries (snd (nexts n c)) = tries c \<and> give_up (snd (nexts n c)))
     \<and> (\<forall>k. counter c = ReversedRange k \<longrightarrow>
            (n \<le> k \<longrightarrow> tries (snd (nexts n c)) = tries c \<and> give_up (snd (nexts n c)))
          \<and> (k < n \<longrightarrow> tries (snd (nexts n c)) = 0
                \<and> give_up (snd (nexts n c)) = (max_tries c \<le> 0)))"
proof (intro conjI allI impI)
  assume z: "counter c = ZeroGen"
  show "tries (snd (nexts n c)) = tries c"
    by (simp add: nexts_ZeroGen [OF z])
  show "give_up (snd (nexts n c))"
    using assms by (simp add: nexts_ZeroGen [OF z] give_up_def)
next
  fix k assume r: "counter c = ReversedRange k" and le: "n \<le> k"
  show "tries (snd (nexts n c)) = tries c"
    using le by (simp add: nexts_ReversedRange_state [OF r])
  show "give_up (snd (nexts n c))"
    using le assms by (simp add: nexts_ReversedRange_state [OF r] give_up_def)
next
  fix k assume r: "counter c = ReversedRange k" and gt: "k < n"
  show "tries (snd (nexts n c)) = 0"
    using gt by (simp add: nexts_ReversedRange_state [OF r] reset_def)
  show "give_up (snd (nexts n c)) = (max_tries c \<le> 0)"
    using gt by (simp add: nexts_ReversedRange_state [OF r] reset_def give_up_def)
qed

theorem give_up_during_countdown_witness:
  "give_up \<lparr>counter = ReversedRange 2, tries = 1, max_tries = 1, current = 2\<rparr>
   \<and> tries (snd (nexts 2 \<lparr>counter = ReversedRange 2, tries = 1, max_tries = 1, current = 2\<rparr>)) = 1
   \<and> give_up (snd (nexts 2 \<lparr>counter = ReversedRange 2, tries = 1, max_tries = 1, current = 2\<rparr>))
   \<and> tries (snd (nexts 3 \<lparr>counter = ReversedRange 2, tries = 1, max_tries = 1, current = 2\<rparr>)) = 0
   \<and> \<not> give_up (snd (nexts 3 \<lparr>counter = ReversedRange 2, tries = 1, max_tries = 1, current = 2\<rparr>))
   \<and> give_up (BackoffCounter_init 0)
   \<and> give_up (snd (nexts 7 (BackoffCounter_init 0)))"
proof -
  let ?c = "\<lparr>counter = ReversedRange 2, tries = 1, max_tries = 1, current = 2\<rparr>"
  have g: "give_up ?c" by (simp add: give_up_def)
  have g0: "give_up (BackoffCounter_init 0)" by (simp add: give_up_def BackoffCounter_init_def)
  show ?thesis
    using g g0 give_up_during_countdown [OF g, of 2] give_up_during_countdown [OF g, of 3]
      give_up_during_countdown [OF g0, of 7]
    by (simp add: BackoffCounter_init_def)
qed

text \<open>
  The claim as stated fails: with \<open>max_tries = 1\<close>, one \<^verbatim>\<open>failure()\<close> saturates the try count
  and starts the countdown 1, 0; the third \<^verbatim>\<open>next()\<close> call finds it exhausted and resets
  the object, so \<open>give_up\<close> is false although no caller called \<^verbatim>\<open>reset()\<close>.
\<close>

theorem give_up_cleared_by_next:
  "failures 1 (BackoffCounter_init 1) =
      Inr \<lparr>counter = ReversedRange 2, tries = 1, max_tries = 1, current = 2\<rparr>
   \<and> give_up \<lparr>counter = ReversedRange 2, tries = 1, max_tries = 1, current = 2\<rparr>
   \<and> nexts 3 \<lparr>counter = ReversedRange 2, tries = 1, max_tries = 1, current = 2\<rparr> =
       ([Inr 1, Inr 0, Inr 0], \<lparr>counter = ZeroGen, tries = 0, max_tries = 1, current = 0\<rparr>)
   \<and> \<not> give_up (snd (nexts 3 \<lparr>counter = ReversedRange 2, tries = 1, max_tries = 1, current = 2\<rparr>))"
  by (simp add: BackoffCounter_init_def failure_def reversed_range_def give_up_def
      BackoffCounter_next_def iter_next_def reset_def numeral_3_eq_3 Let_def)

text \<open>
  C6: for a BackoffCounter constructed with \<open>max_tries = 64\<close>, \<open>give_up\<close> is false after 63
  consecutive \<^verbatim>\<open>failure()\<close> calls and true after 64; the try count saturates at 64, so
  \<open>give_up\<close> is true after any larger number of consecutive \<^verbatim>\<open>failure()\<close> calls too.
\<close>

theorem give_up_max_tries_64:
  "(\<exists>c. failures 63 (BackoffCounter_init 64) = Inr c \<and> \<not> give_up c)
   \<and> (\<exists>c. failures 64 (BackoffCounter_init 64) = Inr c \<and> give_up c)
   \<and> (\<forall>n. \<exists>c. failures (64 + n) (BackoffCounter_init 64) = Inr c \<and> tries c = 64 \<and> give_up c)"
proof -
  have p: "0 \<le> max_tries (BackoffCounter_init 64)" "0 \<le> tries (BackoffCounter_init 64)"
    by (simp_all add: BackoffCounter_init_def)
  have a: "\<exists>c. failures 63 (BackoffCounter_init 64) = Inr c \<and> \<not> give_up c"
    using failures_nonneg [OF p, of 63]
    by (simp add: give_up_def BackoffCounter_init_def)
  have b: "\<exists>c. failures (64 + n) (BackoffCounter_init 64) = Inr c \<and> tries c = 64 \<and> give_up c" for n
    using failures_nonneg [OF p, of "64 + n"]
    by (simp add: give_up_def BackoffCounter_init_def)
  from b [of 0] have "\<exists>c. failures 64 (BackoffCounter_init 64) = Inr c \<and> give_up c"
    by auto
  with a b show ?thesis by blast
qed

text \<open>
  C7: after every history \<open>h\<close> of \<^verbatim>\<open>failure()\<close>, \<^verbatim>\<open>next()\<close> and \<^verbatim>\<open>reset()\<close> calls on a counter
  constructed with \<open>max_tries = m\<close>, and indeed from every object state \<open>c\<close>, \<^verbatim>\<open>reset()\<close>
  leaves the try count 0 and \<open>current\<close> 0 and makes the object equal, field by field, to
  a freshly constructed counter with the same \<open>max_tries\<close>; any number \<open>n\<close> of \<^verbatim>\<open>next()\<close>
  calls after it return 0 each and leave the object as it is.
\<close>

theorem reset_restores_fresh:
  "reset (run h (BackoffCounter_init m)) = BackoffCounter_init m
   \<and> reset c = BackoffCounter_init (max_tries c)
   \<and> tries (reset c) = 0 \<and> current (reset c) = 0
   \<and> nexts n (reset c) = (replicate n (Inr 0), reset c)
   \<and> nexts n (BackoffCounter_init m) = (replicate n (Inr 0), BackoffCounter_init m)"
proof -
  have a: "reset (run h (BackoffCounter_init m)) = BackoffCounter_init m"
    by (simp add: reset_eq_init max_tries_run) (simp add: BackoffCounter_init_def)
  have z: "counter (reset c) = ZeroGen" for c
    by (simp add: reset_def)
  have n: "nexts n (reset c) = (replicate n (Inr 0), reset c)" for c
    by (simp add: nexts_ZeroGen [OF z]) (simp add: reset_def)
  have "nexts n (reset (BackoffCounter_init m)) = (replicate n (Inr 0), reset (BackoffCounter_init m))"
    by (rule n)
  moreover have "reset (BackoffCounter_init m) = BackoffCounter_init m"
    by (simp add: reset_def BackoffCounter_init_def)
  ultimately have f: "nexts n (BackoffCounter_init m) = (replicate n (Inr 0), BackoffCounter_init m)"
    by simp
  have t: "tries (reset c) = 0 \<and> current (reset c) = 0"
    by (simp add: reset_def)
  from a n [of c] f t reset_eq_init [of c] show ?thesis by simp
qed

text \<open>
  C8: for a BackoffCounter constructed with \<open>max_tries = 0\<close>, the first \<^verbatim>\<open>failure()\<close> call
  returns normally and \<open>give_up\<close> is true after it.
\<close>

theorem give_up_after_first_failure_max_tries_0:
  "fst (failure (BackoffCounter_init 0)) = Inr ()
   \<and> tries (snd (failure (BackoffCounter_init 0))) = 0
   \<and> give_up (snd (failure (BackoffCounter_init 0)))"
proof -
  have p: "0 \<le> max_tries (BackoffCounter_init 0)" "0 \<le> tries (BackoffCounter_init 0)"
    by (simp_all add: BackoffCounter_init_def)
  have f: "failure (BackoffCounter_init 0) =
      (Inr (), \<lparr>counter = ReversedRange 1, tries = 0, max_tries = 0, current = 1\<rparr>)"
    unfolding failure_nonneg [OF p] by (simp add: BackoffCounter_init_def)
  show ?thesis
    unfolding f by (simp add: give_up_def)
qed

text \<open>
  C10: for a BackoffCounter constructed with \<open>max_tries = 0\<close>, \<open>give_up\<close> is true right
  after construction, before any \<^verbatim>\<open>failure()\<close> call: the try count starts at 0 and the test
  is \<open>max_tries \<le> tries\<close>. In general a fresh counter gives up exactly when \<open>max_tries \<le> 0\<close>.
\<close>

theorem give_up_at_construction_max_tries_0:
  "tries (BackoffCounter_init 0) = 0
   \<and> max_tries (BackoffCounter_init 0) = 0
   \<and> give_up (BackoffCounter_init 0)
   \<and> give_up (BackoffCounter_init m) = (m \<le> 0)"
  by (simp add: BackoffCounter_init_def give_up_def)

subsection \<open>CommandOption: substitution and tokens\<close>

text \<open>A template that contains the placeholder gives a rendered text that holds the value.\<close>

lemma substitute_has_value:
  "Val v \<in> set (substitute (pre @ ''${value}'' @ post) v)"
proof (induction pre)
  case Nil
  then show ?case by simp
next
  case (Cons c pre)
  then show ?case by simp
qed

text \<open>A token that is open stays a prefix of the next token to be emitted.\<close>

lemma tokenize_from_open:
  "\<exists>b rest. tokenize_from (Some t) ps = (t @ b) # rest"
proof (induction ps arbitrary: t)
  case Nil
  then show ?case by simp
next
  case (Cons p ps)
  show ?case
  proof (cases p)
    case (Lit c)
    show ?thesis
    proof (cases "is_space c")
      case True
      then show ?thesis using Lit by simp
    next
      case False
      from Cons.IH [of "t @ [c]"] obtain b rest
        where "tokenize_from (Some (t @ [c])) ps = ((t @ [c]) @ b) # rest" by blast
      then have "tokenize_from (Some t) (p # ps) = (t @ (c # b)) # rest"
        using Lit False by simp
      then show ?thesis by blast
    qed
  next
    case (Val w)
    from Cons.IH [of "t @ w"] obtain b rest
      where "tokenize_from (Some (t @ w)) ps = ((t @ w) @ b) # rest" by blast
    then have "tokenize_from (Some t) (p # ps) = (t @ (w @ b)) # rest"
      using Val by simp
    then show ?thesis by blast
  qed
qed

lemma tokenize_from_value:
  "Val v \<in> set ps \<Longrightarrow> \<exists>a b. a @ v @ b \<in> set (tokenize_from cur ps)"
proof (induction ps arbitrary: cur)
  case Nil
  then show ?case by simp
next
  case (Cons p ps)
  show ?case
  proof (cases "Val v \<in> set ps")
    case True
    have ih: "\<exists>a b. a @ v @ b \<in> set (tokenize_from c ps)" for c
      using Cons.IH [OF True] .
    show ?thesis
    proof (cases p)
      case (Lit c)
      then show ?thesis
        using ih [of None] ih [of "Some (open_token cur @ [c])"]
        by (auto split: option.splits)
    next
      case (Val w)
      then show ?thesis using ih [of "Some (open_token cur @ w)"] by simp
    qed
  next
    case False
    with Cons.prems have p: "p = Val v" by simp
    from tokenize_from_open [of "open_token cur @ v" ps] obtain b rest
      where "tokenize_from (Some (open_token cur @ v)) ps = ((open_token cur @ v) @ b) # rest"
      by blast
    then have "open_token cur @ v @ b \<in> set (tokenize_from cur (p # ps))"
      using p by simp
    then show ?thesis by blast
  qed
qed

lemma rendered_text_nonempty:
  "Val v \<in> set ps \<Longrightarrow> v \<noteq> [] \<Longrightarrow> rendered_text ps \<noteq> []"
  by (induction ps) (auto simp: rendered_text_def)

text \<open>
  C4: for every CommandOption whose template contains the placeholder, rendering a present
  (non-empty) value \<open>v\<close> puts \<open>v\<close> whole inside one token, whatever whitespace \<open>v\<close> holds;
  the template \<^verbatim>\<open>${value}\<close> with the value \<^verbatim>\<open>foo bar\<close> yields the one token \<^verbatim>\<open>foo bar\<close>, and
  the template \<^verbatim>\<open>-a=${value}\<close> with the same value yields the one token \<^verbatim>\<open>-a=foo bar\<close>.
  (An empty value has nothing to split, and an empty rendered string yields no token.)
\<close>

theorem value_rendered_as_one_unit:
  "(template opt = pre @ ''${value}'' @ post \<and> v \<noteq> [] \<longrightarrow>
      (\<exists>a b. a @ v @ b \<in> set (render_option opt (Some v))))
   \<and> render_option \<lparr>name = n, template = ''${value}'', default = d\<rparr> (Some ''foo bar'')
       = [''foo bar'']
   \<and> render_option \<lparr>name = n, template = ''-a=${value}'', default = d\<rparr> (Some ''foo bar'')
       = [''-a=foo bar'']"
proof (intro conjI impI)
  assume h: "template opt = pre @ ''${value}'' @ post \<and> v \<noteq> []"
  let ?ps = "substitute (template opt) v"
  have m: "Val v \<in> set ?ps"
    using h substitute_has_value [of v pre post] by simp
  have ne: "rendered_text ?ps \<noteq> []"
    using m h by (simp add: rendered_text_nonempty)
  have "render_option opt (Some v) = tokenize_from None ?ps"
    using ne by (simp add: render_option_def tokenize_def Let_def)
  with tokenize_from_value [OF m, of None]
  show "\<exists>a b. a @ v @ b \<in> set (render_option opt (Some v))"
    by simp
next
  show "render_option \<lparr>name = n, template = ''${value}'', default = d\<rparr> (Some ''foo bar'')
       = [''foo bar'']"
    by (simp add: render_option_def rendered_text_def tokenize_def)
next
  show "render_option \<lparr>name = n, template = ''-a=${value}'', default = d\<rparr> (Some ''foo bar'')
       = [''-a=foo bar'']"
    by (simp add: render_option_def rendered_text_def tokenize_def is_space_def)
qed

theorem value_rendered_as_one_unit_witness:
  "template \<lparr>name = ''alpha'', template = ''-a ${value} -b'', default = False\<rparr>
      = ''-a '' @ ''${value}'' @ '' -b''
   \<and> ''foo bar'' \<noteq> []
   \<and> (\<exists>a b. a @ ''foo bar'' @ b \<in>
         set (render_option \<lparr>name = ''alpha'', template = ''-a ${value} -b'', default = False\<rparr>
                (Some ''foo bar'')))
   \<and> render_option \<lparr>name = ''alpha'', template = ''-a ${value} -b'', default = False\<rparr>
         (Some ''foo bar'') = [''-a'', ''foo bar'', ''-b'']"
proof -
  have r: "render_option \<lparr>name = ''alpha'', template = ''-a ${value} -b'', default = False\<rparr>
         (Some ''foo bar'') = [''-a'', ''foo bar'', ''-b'']"
    by (simp add: render_option_def rendered_text_def tokenize_def is_space_def)
  show ?thesis
    using r value_rendered_as_one_unit
      [of "\<lparr>name = ''alpha'', template = ''-a ${value} -b'', default = False\<rparr>"
        "''-a ''" "'' -b''" "''foo bar''"]
    by simp
qed

subsection \<open>Executor.get_options\<close>

lemma get_options_from_concat:
  "get_options_from opts vs acc =
     acc @ concat (map (\<lambda>opt. render_option opt (map_of vs (name opt))) opts)"
  by (induction opts arbitrary: acc) simp_all

lemma get_options_concat:
  "get_options opts vs = concat (map (\<lambda>opt. render_option opt (map_of vs (name opt))) opts)"
  by (simp add: get_options_def get_options_from_concat)

text \<open>
  C5: \<open>get_options\<close> renders the options in declaration order, each looked up by name in
  the values (a missing key is an absent value), and concatenates the tokens in that
  order; the result depends on the values only through the lookup, so two item orders of
  one dictionary give the same result. The four options alpha, beta, gamma, delta of the
  test, with gamma and delta given, yield foo, boo, goo, "doo doom" in either item order.
\<close>

theorem get_options_in_declaration_order:
  "get_options opts vs = concat (map (\<lambda>opt. render_option opt (map_of vs (name opt))) opts)
   \<and> get_options (opts @ opts') vs = get_options opts vs @ get_options opts' vs
   \<and> (distinct (map fst vs) \<and> distinct (map fst vs') \<and> set vs' = set vs \<longrightarrow>
        get_options opts vs' = get_options opts vs)
   \<and> get_options
        [\<lparr>name = ''alpha'', template = ''foo'', default = True\<rparr>,
         \<lparr>name = ''beta'', template = ''boo'', default = True\<rparr>,
         \<lparr>name = ''gamma'', template = ''${value}'', default = False\<rparr>,
         \<lparr>name = ''delta'', template = ''${value}'', default = False\<rparr>]
        [(''gamma'', ''goo''), (''delta'', ''doo doom'')]
       = [''foo'', ''boo'', ''goo'', ''doo doom'']
   \<and> get_options
        [\<lparr>name = ''alpha'', template = ''foo'', default = True\<rparr>,
         \<lparr>name = ''beta'', template = ''boo'', default = True\<rparr>,
         \<lparr>name = ''gamma'', template = ''${value}'', default = False\<rparr>,
         \<lparr>name = ''delta'', template = ''${value}'', default = False\<rparr>]
        [(''delta'', ''doo doom''), (''gamma'', ''goo'')]
       = [''foo'', ''boo'', ''goo'', ''doo doom'']"
proof (intro conjI impI)
  show "get_options opts vs =
      concat (map (\<lambda>opt. render_option opt (map_of vs (name opt))) opts)"
    by (rule get_options_concat)
next
  show "get_options (opts @ opts') vs = get_options opts vs @ get_options opts' vs"
    by (simp add: get_options_concat)
next
  assume h: "distinct (map fst vs) \<and> distinct (map fst vs') \<and> set vs' = set vs"
  then have "map_of vs' = map_of vs"
    by (simp add: map_of_inject_set)
  then show "get_options opts vs' = get_options opts vs"
    by (simp add: get_options_concat)
next
  show "get_options
        [\<lparr>name = ''alpha'', template = ''foo'', default = True\<rparr>,
         \<lparr>name = ''beta'', template = ''boo'', default = True\<rparr>,
         \<lparr>name = ''gamma'', template = ''${value}'', default = False\<rparr>,
         \<lparr>name = ''delta'', template = ''${value}'', default = False\<rparr>]
        [(''gamma'', ''goo''), (''delta'', ''doo doom'')]
       = [''foo'', ''boo'', ''goo'', ''doo doom'']"
    by (simp add: get_options_def render_option_def rendered_text_def tokenize_def is_space_def)
next
  show "get_options
        [\<lparr>name = ''alpha'', template = ''foo'', default = True\<rparr>,
         \<lparr>name = ''beta'', template = ''boo'', default = True\<rparr>,
         \<lparr>name = ''gamma'', template = ''${value}'', default = False\<rparr>,
         \<lparr>name = ''delta'', template = ''${value}'', default = False\<rparr>]
        [(''delta'', ''doo doom''), (''gamma'', ''goo'')]
       = [''foo'', ''boo'', ''goo'', ''doo doom'']"
    by (simp add: get_options_def render_option_def rendered_text_def tokenize_def is_space_def)
qed

theorem get_options_in_declaration_order_witness:
  "distinct (map fst [(''gamma'', ''goo''), (''delta'', ''doo doom'')])
   \<and> distinct (map fst [(''delta'', ''doo doom''), (''gamma'', ''goo'')])
   \<and> set [(''delta'', ''doo doom''), (''gamma'', ''goo'')]
       = set [(''gamma'', ''goo''), (''delta'', ''doo doom'')]
   \<and> get_options
        [\<lparr>name = ''gamma'', template = ''-g ${value}'', default = False\<rparr>,
         \<lparr>name = ''delta'', template = ''${value}'', default = False\<rparr>]
        [(''delta'', ''doo doom''), (''gamma'', ''goo'')]
     = get_options
        [\<lparr>name = ''gamma'', template = ''-g ${value}'', default = False\<rparr>,
         \<lparr>name = ''delta'', template = ''${value}'', default = False\<rparr>]
        [(''gamma'', ''goo''), (''delta'', ''doo doom'')]"
proof -
  have s: "set [(''delta'', ''doo doom''), (''gamma'', ''goo'')]
       = set [(''gamma'', ''goo''), (''delta'', ''doo doom'')]"
    by auto
  show ?thesis
    using s get_options_in_declaration_order
      [of "[\<lparr>name = ''gamma'', template = ''-g ${value}'', default = False\<rparr>,
            \<lparr>name = ''delta'', template = ''${value}'', default = False\<rparr>]"
        "[(''gamma'', ''goo''), (''delta'', ''doo doom'')]" "[]"
        "[(''delta'', ''doo doom''), (''gamma'', ''goo'')]"]
    by simp
qed

subsection \<open>Job.file_results\<close>

lemma file_results_from_concat:
  "file_results_from gp d fs acc = acc @ concat (map (\<lambda>f. gp f d) fs)"
  by (induction fs arbitrary: acc) simp_all

text \<open>
  C9: for every Job with the FileResult descriptors \<open>f1, ..., fk\<close>, \<open>file_results\<close> is the
  concatenation of \<open>get_paths f1 cwd\<close>, ..., \<open>get_paths fk cwd\<close>: descriptor order first,
  the order within a descriptor second, one flat list; its paths are absolute when those
  that \<open>get_paths\<close> returns are. Two descriptors resolving to \<^verbatim>\<open>/foo\<close>, \<^verbatim>\<open>/bar\<close> and to
  \<^verbatim>\<open>/qux\<close> give \<^verbatim>\<open>/foo\<close>, \<^verbatim>\<open>/bar\<close>, \<^verbatim>\<open>/qux\<close>.
\<close>

theorem file_results_concat:
  "file_results gp job = concat (map (\<lambda>f. gp f (cwd job)) (file_result_descriptors job))
   \<and> (list_all (\<lambda>f. list_all is_absolute (gp f (cwd job))) (file_result_descriptors job) \<longrightarrow>
        list_all is_absolute (file_results gp job))
   \<and> file_results (\<lambda>f d. if f = (1::nat) then [''/foo'', ''/bar''] else [''/qux''])
        \<lparr>job_id = i, cwd = w, file_result_descriptors = [1, 2]\<rparr>
       = [''/foo'', ''/bar'', ''/qux'']"
proof (intro conjI impI)
  show c: "file_results gp job =
      concat (map (\<lambda>f. gp f (cwd job)) (file_result_descriptors job))"
    by (simp add: file_results_def file_results_from_concat)
  assume "list_all (\<lambda>f. list_all is_absolute (gp f (cwd job))) (file_result_descriptors job)"
  then show "list_all is_absolute (file_results gp job)"
    unfolding c by (induction "file_result_descriptors job") (auto simp: list_all_iff)
next
  show "file_results (\<lambda>f d. if f = (1::nat) then [''/foo'', ''/bar''] else [''/qux''])
        \<lparr>job_id = i, cwd = w, file_result_descriptors = [1, 2]\<rparr>
       = [''/foo'', ''/bar'', ''/qux'']"
    by (simp add: file_results_def)
qed

theorem file_results_concat_witness:
  "list_all (\<lambda>f. list_all is_absolute
       ((\<lambda>f d. if f = (1::nat) then [d @ ''/foo'', d @ ''/bar''] else [d @ ''/qux'']) f
          (cwd \<lparr>job_id = (7::nat), cwd = ''/work'', file_result_descriptors = [1, 2]\<rparr>)))
     (file_result_descriptors
        \<lparr>job_id = (7::nat), cwd = ''/work'', file_result_descriptors = [1, 2]\<rparr>)
   \<and> list_all is_absolute
        (file_results (\<lambda>f d. if f = (1::nat) then [d @ ''/foo'', d @ ''/bar''] else [d @ ''/qux''])
          \<lparr>job_id = (7::nat), cwd = ''/work'', file_result_descriptors = [1, 2]\<rparr>)
   \<and> file_results (\<lambda>f d. if f = (1::nat) then [d @ ''/foo'', d @ ''/bar''] else [d @ ''/qux''])
          \<lparr>job_id = (7::nat), cwd = ''/work'', file_result_descriptors = [1, 2]\<rparr>
       = [''/work/foo'', ''/work/bar'', ''/work/qux'']"
  using file_results_concat
    [of "\<lambda>f d. if f = (1::nat) then [d @ ''/foo'', d @ ''/bar''] else [d @ ''/qux'']"
      "\<lparr>job_id = (7::nat), cwd = ''/work'', file_result_descriptors = [1, 2]\<rparr>"
      "7::nat" "''/work''"]
  by simp

end
